theory Spec2Isabelle
  imports Complex_Main "HOL-Library.Multiset" "HOL-Library.List_Lexorder"
begin

text \<open>
  A shallow embedding of the cache (\<^verbatim>\<open>src/utils/cache.ts\<close>) and of the parts of the
  API client (\<^verbatim>\<open>src/services/mocoApi.ts\<close>) that log, paginate, build cache keys,
  search and fetch holidays. The definitions come first, in the order of the sources they
  follow; the facts about them and the theorems for the claims C1 to C10 of the
  specification come after.
\<close>

section \<open>JavaScript strings\<close>

text \<open>
  Strings are lists of 8-bit characters, so the development covers ASCII/Latin-1 text,
  where one character is one UTF-16 code unit and \<^verbatim>\<open>length\<close> counts the same
  thing as in the TypeScript source. \<^verbatim>\<open>toLowerCase\<close> maps the letters A to Z
  and leaves every other character alone.
\<close>

definition toLowerChar :: "char \<Rightarrow> char" where
  "toLowerChar c =
     (let n = (of_char c :: nat) in if 65 \<le> n \<and> n \<le> 90 then char_of (n + 32) else c)"

definition toLowerCase :: "string \<Rightarrow> string" where
  "toLowerCase s = map toLowerChar s"

definition startsWith :: "string \<Rightarrow> string \<Rightarrow> bool" where
  "startsWith s needle = (take (length needle) s = needle)"

text \<open>\<^verbatim>\<open>s.indexOf(needle)\<close>: the first position where the needle occurs,
  \<open>None\<close> for the source's \<^verbatim>\<open>-1\<close>.\<close>

fun indexOf :: "string \<Rightarrow> string \<Rightarrow> nat option" where
  "indexOf [] needle = (if needle = [] then Some 0 else None)"
| "indexOf (c # cs) needle =
     (if startsWith (c # cs) needle then Some 0 else map_option Suc (indexOf cs needle))"

definition includes_str :: "string \<Rightarrow> string \<Rightarrow> bool" where
  "includes_str s needle = (indexOf s needle \<noteq> None)"

text \<open>\<^verbatim>\<open>s.slice(a, b)\<close> and \<^verbatim>\<open>s.slice(a)\<close> for non-negative arguments,
  \<^verbatim>\<open>s.slice(-n)\<close> for the last \<open>n\<close> characters.\<close>

definition slice :: "string \<Rightarrow> nat \<Rightarrow> nat \<Rightarrow> string" where
  "slice s a b = take (b - a) (drop a s)"

definition sliceFrom :: "string \<Rightarrow> nat \<Rightarrow> string" where
  "sliceFrom s a = drop a s"

definition sliceLast :: "string \<Rightarrow> nat \<Rightarrow> string" where
  "sliceLast s n = drop (length s - n) s"

definition repeat :: "string \<Rightarrow> nat \<Rightarrow> string" where
  "repeat s n = concat (replicate n s)"

text \<open>White space as \<^verbatim>\<open>trim\<close> and \<^verbatim>\<open>parseInt\<close> skip it: tab, line feed,
  vertical tab, form feed, carriage return and space.\<close>

definition isWhiteSpace :: "char \<Rightarrow> bool" where
  "isWhiteSpace c = (let n = (of_char c :: nat) in (9 \<le> n \<and> n \<le> 13) \<or> n = 32)"

definition trim :: "string \<Rightarrow> string" where
  "trim s = rev (dropWhile isWhiteSpace (rev (dropWhile isWhiteSpace s)))"

section \<open>Redacting the API key for the log (mocoApi.ts, sanitizeRequestHeaders)\<close>

type_synonym headers = "string \<rightharpoonup> string"

text \<open>
  The request headers are a \<^verbatim>\<open>Record<string, string>\<close>. A missing
  \<^verbatim>\<open>Authorization\<close> property and an empty one are both falsy, and the copy of
  the record is returned as it is.
\<close>

definition sanitizeRequestHeaders :: "headers \<Rightarrow> headers" where
  "sanitizeRequestHeaders hdrs =
     (case hdrs ''Authorization'' of
        None \<Rightarrow> hdrs
      | Some authValue \<Rightarrow>
          if authValue = [] then hdrs
          else (case indexOf (toLowerCase authValue) ''token='' of
                  None \<Rightarrow> hdrs(''Authorization'' \<mapsto> ''[REDACTED]'')
                | Some tokenIndex \<Rightarrow>
                    let tokenPrefix = slice authValue 0 (tokenIndex + length ''token='');
                        tokenValue = sliceFrom authValue (tokenIndex + length ''token='')
                    in if length tokenValue \<le> 8
                       then hdrs(''Authorization'' \<mapsto>
                              tokenPrefix @ repeat ''*'' (max (length tokenValue) 4))
                       else hdrs(''Authorization'' \<mapsto>
                              tokenPrefix @ slice tokenValue 0 4 @ ''...'' @ sliceLast tokenValue 4)))"

text \<open>The headers the service sends with every request (\<^verbatim>\<open>defaultHeaders\<close>).\<close>

definition defaultHeaders :: "string \<Rightarrow> headers" where
  "defaultHeaders apiKey =
     [''Authorization'' \<mapsto> ''Token token='' @ apiKey,
      ''Content-Type'' \<mapsto> ''application/json'',
      ''Accept'' \<mapsto> ''application/json'']"

section \<open>JavaScript numbers as the pagination headers need them\<close>











text \<open>
  One run of \<^verbatim>\<open>fetchAllPages\<close> asks for page 1, then page 2 and so on, each page
  once at most, so the upstream is a function from the page number to what
  \<^verbatim>\<open>makeRequestWithHeaders\<close> gives for it: a failure with its message (\<open>Inl\<close>)
  or the parsed body with the response headers. The body is a list of items when it is an
  array and \<open>None\<close> when it is \<^verbatim>\<open>null\<close> or another value that cannot be
  spread into \<^verbatim>\<open>push\<close>, which throws. A header is read with
  \<^verbatim>\<open>headers.get\<close> and tested for truthiness: present and not empty. The loop may
  run forever, so it is a partial function, \<open>None\<close> meaning that it never returns; a
  result comes with the number of requests made.
\<close>

record 'a page_response =
  data :: "'a list option"
  headers :: "string \<rightharpoonup> string"


definition truthy :: "string option \<Rightarrow> bool" where
  "truthy h = (case h of None \<Rightarrow> False | Some s \<Rightarrow> s \<noteq> [])"










section \<open>The cache key of the user directory (mocoApi.ts, getCachedUsers)\<close>

text \<open>\<^verbatim>\<open>parts.join(separator)\<close>.\<close>

definition join :: "string list \<Rightarrow> string \<Rightarrow> string" where
  "join parts separator =
     (case parts of [] \<Rightarrow> [] | p # ps \<Rightarrow> p @ concat (map (\<lambda>q. separator @ q) ps))"




section \<open>Text search (mocoApi.ts, searchProjects and searchUsers)\<close>

text \<open>
  Projects and users carry the fields the searches read; an optional or nullable field is
  an \<open>option\<close>, and the source's truthiness test on it is \<open>truthy\<close> (present and
  not empty). Both functions get the cached full list as their first argument.
\<close>

record project =
  name :: string
  description :: "string option"

definition searchProjects :: "project list \<Rightarrow> string \<Rightarrow> project list" where
  "searchProjects allProjects query =
     (let lowerQuery = toLowerCase query
      in filter (\<lambda>project.
           includes_str (toLowerCase (name project)) lowerQuery
           \<or> (truthy (description project)
               \<and> includes_str (toLowerCase (the (description project))) lowerQuery))
         allProjects)"

record user =
  firstname :: "string option"
  lastname :: "string option"
  email :: "string option"
  info :: "string option"
  tags :: "string list option"
  unit_name :: "string option"
  role_name :: "string option"
  mobile_phone :: "string option"
  work_phone :: "string option"

definition orEmpty :: "string option \<Rightarrow> string" where
  "orEmpty s = (case s of None \<Rightarrow> [] | Some t \<Rightarrow> t)"

definition searchTargets :: "user \<Rightarrow> string list" where
  "searchTargets u =
     (let fullName = trim (orEmpty (firstname u) @ '' '' @ orEmpty (lastname u))
      in (if truthy (firstname u) then [the (firstname u)] else [])
       @ (if truthy (lastname u) then [the (lastname u)] else [])
       @ (if length fullName > 0 then [fullName] else [])
       @ (if truthy (email u) then [the (email u)] else [])
       @ (if truthy (info u) then [the (info u)] else [])
       @ (case tags u of Some ts \<Rightarrow> if length ts > 0 then [join ts '' ''] else [] | None \<Rightarrow> [])
       @ (if truthy (unit_name u) then [the (unit_name u)] else [])
       @ (if truthy (role_name u) then [the (role_name u)] else [])
       @ (if truthy (mobile_phone u) then [the (mobile_phone u)] else [])
       @ (if truthy (work_phone u) then [the (work_phone u)] else []))"

definition searchUsers :: "user list \<Rightarrow> string \<Rightarrow> user list" where
  "searchUsers allUsers query =
     (let normalizedQuery = toLowerCase (trim query)
      in if length normalizedQuery = 0 then allUsers
         else filter (\<lambda>u. \<exists>target \<in> set (searchTargets u).
                       includes_str (toLowerCase target) normalizedQuery) allUsers)"

section \<open>Holidays of a year (mocoApi.ts, makeRequest and getUserHolidays)\<close>

text \<open>
  The value thrown inside \<^verbatim>\<open>makeRequest\<close> is represented by its message.
  \<^verbatim>\<open>fetch\<close> either throws (a network failure, \<open>Inl\<close>) or yields a response;
  \<^verbatim>\<open>JSON.parse\<close> is a parameter that returns the parsed value or the message
  of its syntax error. The body is parsed before the status is looked at, as in the source,
  and every failure passes through the error classifier.
\<close>

datatype json = JNull | JBool bool | JNumber int | JString string | JArray "json list"
  | JObject "(string \<times> json) list"








section \<open>The cache (cache.ts)\<close>

text \<open>
  Time is the reading of \<^verbatim>\<open>Date.now()\<close> in milliseconds and is passed to every
  operation that reads the clock. A value of type \<open>'v option\<close> is a JavaScript value
  that may be \<^verbatim>\<open>undefined\<close> (\<open>None\<close>): the store reports a missing entry that
  way, and a fetcher may resolve to it.
\<close>

type_synonym key = string

record 'v MemoryCacheEntry =
  entry_value :: "'v option"
  expiresAt :: "int option"

type_synonym 'v MemoryCacheStore = "key \<rightharpoonup> 'v MemoryCacheEntry"

definition MemoryCacheStore_get ::
  "int \<Rightarrow> key \<Rightarrow> 'v MemoryCacheStore \<Rightarrow> 'v option \<times> 'v MemoryCacheStore" where
  "MemoryCacheStore_get now key st =
     (case st key of
        None \<Rightarrow> (None, st)
      | Some entry \<Rightarrow>
          if expiresAt entry \<noteq> None \<and> the (expiresAt entry) \<le> now
          then (None, st(key := None))
          else (entry_value entry, st))"


definition MemoryCacheStore_delete :: "key \<Rightarrow> 'v MemoryCacheStore \<Rightarrow> 'v MemoryCacheStore" where
  "MemoryCacheStore_delete key st = st(key := None)"


text \<open>
  \<^verbatim>\<open>getOrSet\<close> builds the chain
  \<^verbatim>\<open>Promise.resolve().then(fetcher).then(store the result).finally(delete the pending record)\<close>.
  None of its callbacks runs inside \<^verbatim>\<open>getOrSet\<close>: each runs later, in a turn of
  its own, and other code may run between two of them. A chain is therefore a record with a
  phase: \<open>Scheduled\<close> (the fetcher has not been called yet), \<open>Running\<close> (the fetcher
  has been called and has not settled), \<open>Settling\<close> (the fetcher has settled and the
  second callback has run, the \<^verbatim>\<open>finally\<close> callback has not) and \<open>Settled\<close>
  (the promise that \<^verbatim>\<open>getOrSet\<close> handed out has settled with that outcome). An
  outcome is \<open>Inr\<close> of the value the fetcher resolved to or \<open>Inl\<close> of its failure.
  The fetcher is an opaque closure: the model records which fetcher is called when
  (\<open>invocations\<close>, with the chain on whose behalf it is called, or \<open>None\<close> when
  \<^verbatim>\<open>getOrSet\<close> calls it directly), and the environment supplies its outcome.
  Promises are numbered in the order of their creation.
\<close>

datatype ('v, 'e) phase =
  Scheduled | Running | Settling "'e + 'v option" | Settled "'e + 'v option"

record ('v, 'e, 'f) pending_promise =
  promise_key :: key
  promise_ttl :: int
  promise_fetcher :: 'f
  promise_phase :: "('v, 'e) phase"

record ('v, 'e, 'f) Cache =
  store :: "'v MemoryCacheStore"
  pendingFetches :: "key \<rightharpoonup> nat"
  promises :: "('v, 'e, 'f) pending_promise list"
  invocations :: "(nat option \<times> 'f) list"





definition Cache_delete :: "key \<Rightarrow> ('v, 'e, 'f) Cache \<Rightarrow> ('v, 'e, 'f) Cache" where
  "Cache_delete key c = c\<lparr>store := MemoryCacheStore_delete key (store c)\<rparr>"












text \<open>The fetchers called on behalf of a chain, in the order of the calls.\<close>

definition invoked_for :: "nat \<Rightarrow> ('v, 'e, 'f) Cache \<Rightarrow> 'f list" where
  "invoked_for p c = map snd (filter (\<lambda>i. fst i = Some p) (invocations c))"

definition in_flight :: "('v, 'e) phase \<Rightarrow> bool" where
  "in_flight ph = (case ph of Settled outcome \<Rightarrow> False | _ \<Rightarrow> True)"


text \<open>
  The chains that were ever started for a key, and the events of a burst of calls: all
  but \<^verbatim>\<open>clear\<close> and the settlement (second or third callback) of a chain in
  the given set.
\<close>

definition chains_for :: "key \<Rightarrow> ('v, 'e, 'f) Cache \<Rightarrow> nat set" where
  "chains_for k c = set (filter (\<lambda>q. promise_key (promises c ! q) = k) [0..<length (promises c)])"






section \<open>Facts about the string functions\<close>

lemma toLowerCase_length [simp]: "length (toLowerCase s) = length s"
  by (simp add: toLowerCase_def)

lemma toLowerCase_append [simp]: "toLowerCase (s @ t) = toLowerCase s @ toLowerCase t"
  by (simp add: toLowerCase_def)

lemma repeat_star [simp]: "repeat ''*'' n = replicate n CHR ''*''"
  by (induction n) (simp_all add: repeat_def)

lemma indexOf_le_length: "indexOf s needle = Some i \<Longrightarrow> i \<le> length s"
  by (induction s arbitrary: i) (auto split: if_splits)

text \<open>\<^verbatim>\<open>indexOf\<close> finds the first occurrence and nothing else.\<close>

lemma indexOf_Some_iff:
  "indexOf s needle = Some i \<longleftrightarrow>
     i \<le> length s \<and> startsWith (drop i s) needle \<and> (\<forall>j<i. \<not> startsWith (drop j s) needle)"
proof (induction s arbitrary: i)
  case Nil
  then show ?case by (auto simp: startsWith_def)
next
  case (Cons c cs)
  show ?case
  proof (cases "startsWith (c # cs) needle")
    case True
    then show ?thesis
      by (cases i) (auto simp: startsWith_def)
  next
    case False
    show ?thesis
    proof (cases i)
      case 0
      with False show ?thesis by simp
    next
      case (Suc i')
      have "(\<forall>j<Suc i'. \<not> startsWith (drop j (c # cs)) needle) \<longleftrightarrow>
            (\<forall>j<i'. \<not> startsWith (drop j cs) needle)"
        using False by (auto simp: less_Suc_eq_0_disj)
      with False Suc Cons.IH [of i'] show ?thesis by auto
    qed
  qed
qed

lemma indexOf_None_iff:
  "indexOf s needle = None \<longleftrightarrow> (\<forall>j\<le>length s. \<not> startsWith (drop j s) needle)"
proof (induction s)
  case Nil
  then show ?case by (auto simp: startsWith_def)
next
  case (Cons c cs)
  have "(\<forall>j\<le>length (c # cs). \<not> startsWith (drop j (c # cs)) needle) \<longleftrightarrow>
        (\<not> startsWith (c # cs) needle \<and> (\<forall>j\<le>length cs. \<not> startsWith (drop j cs) needle))"
    (is "?L = ?R")
  proof
    assume l: ?L
    have "\<not> startsWith (c # cs) needle"
      using l [rule_format, of 0] by simp
    moreover have "\<forall>j\<le>length cs. \<not> startsWith (drop j cs) needle"
    proof (intro allI impI)
      fix j assume "j \<le> length cs"
      then show "\<not> startsWith (drop j cs) needle"
        using l [rule_format, of "Suc j"] by simp
    qed
    ultimately show ?R by simp
  next
    assume r: ?R
    show ?L
    proof (intro allI impI)
      fix j assume "j \<le> length (c # cs)"
      then show "\<not> startsWith (drop j (c # cs)) needle"
        using r by (cases j) auto
    qed
  qed
  with Cons show ?case by auto
qed

lemma token_marker_length: "toLowerCase marker = ''token='' \<Longrightarrow> length marker = 6"
proof -
  assume "toLowerCase marker = ''token=''"
  then have "length (toLowerCase marker) = length ''token=''" by simp
  then show ?thesis by simp
qed

section \<open>The redaction of the Authorization header\<close>

text \<open>
  Claim C8. For every headers record the sanitised copy differs from the original at
  most in the \<^verbatim>\<open>Authorization\<close> entry. Without such an entry (or with an empty
  one) the record comes back unchanged. When the value holds no
  \<^verbatim>\<open>token=\<close> marker (in any letter case) the whole value becomes
  \<^verbatim>\<open>[REDACTED]\<close>. Otherwise the value splits at the first marker into
  everything up to and including the marker and the secret after it: a secret of more
  than 8 characters is replaced by its first 4 characters, three dots and its last 4
  characters, and a secret of at most 8 characters by asterisks only, as many as the
  secret is long and at least 4.
\<close>

theorem sanitizeRequestHeaders_redacts:
  "(\<forall>k. k \<noteq> ''Authorization'' \<longrightarrow> sanitizeRequestHeaders hdrs k = hdrs k)
   \<and> (hdrs ''Authorization'' = None \<or> hdrs ''Authorization'' = Some []
        \<longrightarrow> sanitizeRequestHeaders hdrs = hdrs)
   \<and> (\<forall>authValue. hdrs ''Authorization'' = Some authValue \<and> authValue \<noteq> []
        \<and> (\<forall>j\<le>length authValue. \<not> startsWith (drop j (toLowerCase authValue)) ''token='')
        \<longrightarrow> sanitizeRequestHeaders hdrs ''Authorization'' = Some ''[REDACTED]'')
   \<and> (\<forall>pre marker secret.
        hdrs ''Authorization'' = Some (pre @ marker @ secret)
        \<and> toLowerCase marker = ''token=''
        \<and> (\<forall>j<length pre. \<not> startsWith (drop j (toLowerCase (pre @ marker @ secret))) ''token='')
        \<longrightarrow> sanitizeRequestHeaders hdrs ''Authorization'' =
              Some (pre @ marker @
                (if 8 < length secret
                 then take 4 secret @ ''...'' @ drop (length secret - 4) secret
                 else replicate (max (length secret) 4) CHR ''*'')))"
proof (intro conjI allI impI)
  fix k :: string
  assume "k \<noteq> ''Authorization''"
  then show "sanitizeRequestHeaders hdrs k = hdrs k"
    by (simp add: sanitizeRequestHeaders_def Let_def split: option.splits)
next
  assume "hdrs ''Authorization'' = None \<or> hdrs ''Authorization'' = Some []"
  then show "sanitizeRequestHeaders hdrs = hdrs"
    by (auto simp: sanitizeRequestHeaders_def)
next
  fix authValue
  assume a: "hdrs ''Authorization'' = Some authValue \<and> authValue \<noteq> []
    \<and> (\<forall>j\<le>length authValue. \<not> startsWith (drop j (toLowerCase authValue)) ''token='')"
  then have "indexOf (toLowerCase authValue) ''token='' = None"
    by (simp add: indexOf_None_iff)
  with a show "sanitizeRequestHeaders hdrs ''Authorization'' = Some ''[REDACTED]''"
    by (simp add: sanitizeRequestHeaders_def)
next
  fix pre marker secret
  assume a: "hdrs ''Authorization'' = Some (pre @ marker @ secret)
    \<and> toLowerCase marker = ''token=''
    \<and> (\<forall>j<length pre. \<not> startsWith (drop j (toLowerCase (pre @ marker @ secret))) ''token='')"
  let ?a = "pre @ marker @ secret"
  from a have len: "length marker = 6"
    by (simp add: token_marker_length)
  from a have first: "\<forall>j<length pre. \<not> startsWith (drop j (toLowerCase ?a)) ''token=''"
    by blast
  have at: "startsWith (drop (length pre) (toLowerCase ?a)) ''token=''"
    using a by (simp add: startsWith_def)
  have le: "length pre \<le> length (toLowerCase ?a)"
    by simp
  have idx: "indexOf (toLowerCase ?a) ''token='' = Some (length pre)"
    using le at first by (rule iffD2 [OF indexOf_Some_iff, OF conjI [OF _ conjI]])
  have ne: "?a \<noteq> []"
    using len by auto
  show "sanitizeRequestHeaders hdrs ''Authorization'' =
      Some (pre @ marker @
        (if 8 < length secret
         then take 4 secret @ ''...'' @ drop (length secret - 4) secret
         else replicate (max (length secret) 4) CHR ''*''))"
    using a idx ne len
    by (simp add: sanitizeRequestHeaders_def Let_def slice_def sliceFrom_def sliceLast_def)
qed

theorem sanitizeRequestHeaders_redacts_witness:
  "sanitizeRequestHeaders (defaultHeaders ''0123456789abcdef'') ''Authorization''
     = Some ''Token token=0123...cdef''
   \<and> sanitizeRequestHeaders (defaultHeaders ''0123456789abcdef'') ''Accept''
     = Some ''application/json''
   \<and> sanitizeRequestHeaders (defaultHeaders ''secret'') ''Authorization''
     = Some ''Token token=******''
   \<and> sanitizeRequestHeaders [''Authorization'' \<mapsto> ''Basic dXNlcg==''] ''Authorization''
     = Some ''[REDACTED]''
   \<and> sanitizeRequestHeaders [''Accept'' \<mapsto> ''text/html''] = [''Accept'' \<mapsto> ''text/html'']"
proof -
  let ?long = "defaultHeaders ''0123456789abcdef''"
  let ?short = "defaultHeaders ''secret''"
  let ?basic = "[''Authorization'' \<mapsto> ''Basic dXNlcg=='']"
  let ?plain = "[''Accept'' \<mapsto> ''text/html'']"
  have low: "toLowerCase ''token='' = ''token=''"
    by (simp add: toLowerCase_def toLowerChar_def)
  have l1: "?long ''Authorization'' = Some (''Token '' @ ''token='' @ ''0123456789abcdef'')"
    by (simp add: defaultHeaders_def)
  have l2: "\<forall>j<length ''Token ''. \<not> startsWith
      (drop j (toLowerCase (''Token '' @ ''token='' @ ''0123456789abcdef''))) ''token=''"
    by (simp add: toLowerCase_def toLowerChar_def startsWith_def All_less_Suc)
  have s1: "?short ''Authorization'' = Some (''Token '' @ ''token='' @ ''secret'')"
    by (simp add: defaultHeaders_def)
  have s2: "\<forall>j<length ''Token ''. \<not> startsWith
      (drop j (toLowerCase (''Token '' @ ''token='' @ ''secret''))) ''token=''"
    by (simp add: toLowerCase_def toLowerChar_def startsWith_def All_less_Suc)
  have b1: "?basic ''Authorization'' = Some ''Basic dXNlcg=='' \<and> ''Basic dXNlcg=='' \<noteq> []"
    by simp
  have b2: "\<forall>j\<le>length ''Basic dXNlcg==''. \<not> startsWith
      (drop j (toLowerCase ''Basic dXNlcg=='')) ''token=''"
    by (simp add: toLowerCase_def toLowerChar_def startsWith_def All_less_Suc
        flip: less_Suc_eq_le)
  have n1: "?plain ''Authorization'' = None \<or> ?plain ''Authorization'' = Some []"
    by simp
  have k1: "''Accept'' \<noteq> ''Authorization''"
    by simp
  have c1: "sanitizeRequestHeaders ?long ''Authorization'' = Some ''Token token=0123...cdef''"
    using sanitizeRequestHeaders_redacts [of ?long, THEN conjunct2, THEN conjunct2,
        THEN conjunct2, rule_format, OF conjI [OF l1 conjI [OF low l2]]]
    by simp
  have c2: "sanitizeRequestHeaders ?long ''Accept'' = Some ''application/json''"
    using sanitizeRequestHeaders_redacts [of ?long, THEN conjunct1, rule_format, OF k1]
    by (simp add: defaultHeaders_def)
  have c3: "sanitizeRequestHeaders ?short ''Authorization'' = Some ''Token token=******''"
    using sanitizeRequestHeaders_redacts [of ?short, THEN conjunct2, THEN conjunct2,
        THEN conjunct2, rule_format, OF conjI [OF s1 conjI [OF low s2]]]
    by (simp add: numeral_eq_Suc)
  have c4: "sanitizeRequestHeaders ?basic ''Authorization'' = Some ''[REDACTED]''"
    using sanitizeRequestHeaders_redacts [of ?basic, THEN conjunct2, THEN conjunct2,
        THEN conjunct1, rule_format, OF conjI [OF b1 [THEN conjunct1] conjI [OF b1 [THEN conjunct2] b2]]]
    by simp
  have c5: "sanitizeRequestHeaders ?plain = ?plain"
    using sanitizeRequestHeaders_redacts [of ?plain, THEN conjunct2, THEN conjunct1,
        rule_format, OF n1]
    by simp
  from c1 c2 c3 c4 c5 show ?thesis
    by (intro conjI)
qed

section \<open>The pagination loop (mocoApi.ts, fetchAllPages)\<close>



















section \<open>The cache key of the user directory\<close>







section \<open>Text search\<close>

text \<open>What does hold for blank queries: \<^verbatim>\<open>searchUsers\<close> returns every user for a
  query of white space only, and \<^verbatim>\<open>searchProjects\<close> returns every project for the
  empty query, every string containing the empty string.\<close>

lemma includes_str_empty: "includes_str s []"
  by (cases s) (simp_all add: includes_str_def startsWith_def)

lemma searchUsers_blank_query: "trim query = [] \<Longrightarrow> searchUsers allUsers query = allUsers"
  by (simp add: searchUsers_def toLowerCase_def)

lemma searchProjects_empty_query: "searchProjects allProjects [] = allProjects"
  by (simp add: searchProjects_def toLowerCase_def includes_str_empty)

text \<open>
  Claim C7. \<^verbatim>\<open>searchUsers\<close> trims the query and returns every user when nothing is
  left. \<^verbatim>\<open>searchProjects\<close> only lowers the case of the query: the empty query
  matches every project, but a query of white space is searched for as it is, so it drops
  every project whose name and description do not contain that white space.
\<close>

theorem searchProjects_whitespace_query:
  "searchProjects [\<lparr>name = ''Alpha'', description = None\<rparr>,
                   \<lparr>name = ''Beta'', description = Some ''second project''\<rparr>] ''  '' = []
   \<and> searchProjects [\<lparr>name = ''Alpha'', description = None\<rparr>,
                   \<lparr>name = ''Beta'', description = Some ''second project''\<rparr>] '' ''
       = [\<lparr>name = ''Beta'', description = Some ''second project''\<rparr>]
   \<and> searchProjects [\<lparr>name = ''Alpha'', description = None\<rparr>,
                   \<lparr>name = ''Beta'', description = Some ''second project''\<rparr>] ''''
       = [\<lparr>name = ''Alpha'', description = None\<rparr>,
          \<lparr>name = ''Beta'', description = Some ''second project''\<rparr>]
   \<and> searchUsers [\<lparr>firstname = Some ''Ada'', lastname = Some ''Lovelace'', email = None,
                   info = None, tags = None, unit_name = None, role_name = None,
                   mobile_phone = None, work_phone = None\<rparr>] ''  ''
       = [\<lparr>firstname = Some ''Ada'', lastname = Some ''Lovelace'', email = None,
           info = None, tags = None, unit_name = None, role_name = None,
           mobile_phone = None, work_phone = None\<rparr>]"
  by code_simp

section \<open>Holidays of a year\<close>



section \<open>The cache: invariants of all executions\<close>

lemma store_get_miss_iff:
  "fst (MemoryCacheStore_get now k st) = None \<longleftrightarrow>
     (case st k of None \<Rightarrow> True
      | Some entry \<Rightarrow> (expiresAt entry \<noteq> None \<and> the (expiresAt entry) \<le> now) \<or> entry_value entry = None)"
  by (auto simp: MemoryCacheStore_get_def split: option.splits)

lemma store_get_other [simp]:
  "k' \<noteq> k \<Longrightarrow> snd (MemoryCacheStore_get now k st) k' = st k'"
  by (simp add: MemoryCacheStore_get_def split: option.splits)

lemma store_get_same:
  "snd (MemoryCacheStore_get now k st) k = None \<or> snd (MemoryCacheStore_get now k st) k = st k"
  by (simp add: MemoryCacheStore_get_def split: option.splits)









lemma invoked_for_invocations [simp]:
  "invoked_for p (c\<lparr>invocations := xs\<rparr>) = map snd (filter (\<lambda>i. fst i = Some p) xs)"
  by (simp add: invoked_for_def)

lemma invoked_for_store [simp]: "invoked_for p (c\<lparr>store := st\<rparr>) = invoked_for p c"
  by (simp add: invoked_for_def)

lemma invoked_for_pending [simp]: "invoked_for p (c\<lparr>pendingFetches := pf\<rparr>) = invoked_for p c"
  by (simp add: invoked_for_def)

lemma invoked_for_promises [simp]: "invoked_for p (c\<lparr>promises := ps\<rparr>) = invoked_for p c"
  by (simp add: invoked_for_def)

lemma in_flight_simps [simp]:
  "in_flight Scheduled" "in_flight Running" "in_flight (Settling r)" "\<not> in_flight (Settled r)"
  by (simp_all add: in_flight_def)









section \<open>The cache: one fetch in flight\<close>









lemma chains_for_store [simp]: "chains_for k (c\<lparr>store := st\<rparr>) = chains_for k c"
  by (simp add: chains_for_def)

lemma chains_for_pending [simp]: "chains_for k (c\<lparr>pendingFetches := pf\<rparr>) = chains_for k c"
  by (simp add: chains_for_def)

lemma chains_for_invocations [simp]: "chains_for k (c\<lparr>invocations := xs\<rparr>) = chains_for k c"
  by (simp add: chains_for_def)



















section \<open>Single-flight de-duplication\<close>



section \<open>The TTL policy\<close>







section \<open>A failing fetch\<close>





section \<open>Clearing the cache\<close>



end
